theory Spec2Isabelle
  imports Main
begin

section \<open>Go values and the library calls the program makes\<close>

text \<open>
  A Go \<open>error\<close> is modelled by the text its \<open>Error()\<close> method returns; the \<open>nil\<close> error
  is \<open>None\<close>. A Go \<open>string\<close> is a sequence of bytes, as a HOL \<open>string\<close> is, so
  \<open>len(body)\<close> is \<open>length body\<close>.
\<close>

type_synonym go_error = "string option"

text \<open>The verb \<open>%d\<close> of package \<open>fmt\<close>: decimal digits, with a minus sign below zero.\<close>

definition digit :: "nat \<Rightarrow> char" where
  "digit d = ''0123456789'' ! d"

fun show_nat :: "nat \<Rightarrow> string" where
  "show_nat n = (if n < 10 then [digit n] else show_nat (n div 10) @ [digit (n mod 10)])"

declare show_nat.simps [simp del]

definition show_int :: "int \<Rightarrow> string" where
  "show_int i = (if i < 0 then ''-'' @ show_nat (nat (- i)) else show_nat (nat i))"

text \<open>The verb \<open>%v\<close> applied to an \<open>error\<close>: its text, or \<open><nil>\<close> for the nil error.\<close>

definition show_err :: "go_error \<Rightarrow> string" where
  "show_err e = (case e of None \<Rightarrow> ''<nil>'' | Some m \<Rightarrow> m)"

text \<open>
  \<open>time.Duration\<close> is a signed 64-bit count of nanoseconds; a product that leaves the
  range wraps around. \<open>time.Sleep d\<close> returns at once when \<open>d \<le> 0\<close>.
\<close>

definition int64 :: "int \<Rightarrow> int" where
  "int64 x = (x + 2 ^ 63) mod 2 ^ 64 - 2 ^ 63"

definition Second :: int where
  "Second = 1000000000"

definition StatusOK :: int where
  "StatusOK = 200"

section \<open>The network and the trace of effects\<close>

text \<open>
  What \<open>http.Get\<close> hands back: a transport error (then there is no response), or a
  response with its status code and with what \<open>io.ReadAll\<close> on its body will give.
\<close>

datatype read_result = ReadOk string | ReadErr string

datatype get_result = GetErr string | GetResp int read_result

text \<open>
  The network is a parameter: \<open>net url k\<close> is the outcome of the \<open>k\<close>-th GET (counted
  from 0) that this goroutine issues, when it is sent to \<open>url\<close>.
\<close>

type_synonym network = "string \<Rightarrow> nat \<Rightarrow> get_result"

text \<open>The effects of a goroutine, in the order they happen. A sleep carries its
  \<open>time.Duration\<close> in nanoseconds.\<close>

datatype event = Get string | ReadAll | CloseBody | Sleep int

record world =
  calls :: nat
  trace :: "event list"

definition http_Get :: "network \<Rightarrow> string \<Rightarrow> world \<Rightarrow> get_result \<times> world" where
  "http_Get net url w =
     (net url (calls w), w\<lparr>calls := Suc (calls w), trace := trace w @ [Get url]\<rparr>)"

definition emit :: "event \<Rightarrow> world \<Rightarrow> world" where
  "emit e w = w\<lparr>trace := trace w @ [e]\<rparr>"

section \<open>fetcher.FetchWithRetry\<close>

text \<open>The argument of the \<open>time.Sleep\<close> call in iteration \<open>i\<close>:
  \<open>time.Duration(i+1) * time.Second\<close>.\<close>

definition backoff :: "int \<Rightarrow> int" where
  "backoff i = int64 (int64 (i + 1) * Second)"

text \<open>
  The loop \<open>for i := 0; i < retries; i++\<close> with the variables it carries: the counter
  \<open>i\<close> and \<open>err\<close>, which every \<open>http.Get\<close> overwrites. The function returns the pair
  \<open>(string, error)\<close> and the world it leaves. The deferred \<open>resp.Body.Close()\<close> runs
  when the function returns from inside the status-200 branch.
\<close>

function fetch_loop ::
  "network \<Rightarrow> string \<Rightarrow> int \<Rightarrow> int \<Rightarrow> go_error \<Rightarrow> world \<Rightarrow> (string \<times> go_error) \<times> world"
where
  "fetch_loop net url retries i err w =
     (if i < retries then
        (case http_Get net url w of
           (GetErr e, w1) \<Rightarrow>
             fetch_loop net url retries (i + 1) (Some e) (emit (Sleep (backoff i)) w1)
         | (GetResp status body, w1) \<Rightarrow>
             if status = StatusOK then
               (case body of
                  ReadErr e \<Rightarrow>
                    (('''', Some (''error reading body: '' @ e)),
                     emit CloseBody (emit ReadAll w1))
                | ReadOk b \<Rightarrow>
                    ((b, None), emit CloseBody (emit ReadAll w1)))
             else
               fetch_loop net url retries (i + 1) None (emit (Sleep (backoff i)) w1))
      else
        (('''', Some (''failed after '' @ show_int retries @ '' retries: '' @ show_err err)), w))"
  by pat_completeness auto
termination
  by (relation "measure (\<lambda>(net, url, retries, i, err, w). nat (retries - i))") auto

declare fetch_loop.simps [simp del]

definition FetchWithRetry ::
  "network \<Rightarrow> string \<Rightarrow> int \<Rightarrow> world \<Rightarrow> (string \<times> go_error) \<times> world" where
  "FetchWithRetry net url retries w = fetch_loop net url retries 0 None w"

subsection \<open>Vocabulary for statements about the retry loop\<close>

text \<open>An attempt fails, and is retried, when the GET gave a transport error or a status
  other than 200. \<open>get_err\<close> is what \<open>http.Get\<close> stores in \<open>err\<close>.\<close>

definition retryable :: "get_result \<Rightarrow> bool" where
  "retryable r = (case r of GetErr e \<Rightarrow> True | GetResp status body \<Rightarrow> status \<noteq> StatusOK)"

definition get_err :: "get_result \<Rightarrow> go_error" where
  "get_err r = (case r of GetErr e \<Rightarrow> Some e | GetResp status body \<Rightarrow> None)"

text \<open>The effects of one failed iteration, and of \<open>m\<close> failed iterations in a row
  starting with loop counter \<open>i\<close>.\<close>

definition failed_round :: "string \<Rightarrow> int \<Rightarrow> event list" where
  "failed_round url i = [Get url, Sleep (backoff i)]"

fun failed_rounds :: "string \<Rightarrow> int \<Rightarrow> nat \<Rightarrow> event list" where
  "failed_rounds url i 0 = []"
| "failed_rounds url i (Suc m) = failed_round url i @ failed_rounds url (i + 1) m"

text \<open>The value of \<open>err\<close> after \<open>m\<close> failed iterations that began with \<open>c\<close> GETs already
  made: the transport error of the latest GET, or \<open>nil\<close> when that GET got a response.\<close>

definition last_err :: "network \<Rightarrow> string \<Rightarrow> go_error \<Rightarrow> nat \<Rightarrow> nat \<Rightarrow> go_error" where
  "last_err net url err c m = (if m = 0 then err else get_err (net url (c + m - 1)))"

text \<open>The effects a call has added to the world it started in.\<close>

definition added :: "world \<Rightarrow> world \<Rightarrow> event list" where
  "added w w' = drop (length (trace w)) (trace w')"

subsection \<open>Concrete networks and a fresh world\<close>

definition w0 :: world where
  "w0 = \<lparr>calls = 0, trace = []\<rparr>"

definition flaky_net :: network where
  "flaky_net url k =
     (if k = 0 then GetErr ''connection refused'' else GetResp 200 (ReadOk ''hello''))"

definition down_net :: network where
  "down_net url k = GetResp 500 (ReadOk '''')"

definition refused_then_500 :: network where
  "refused_then_500 url k =
     (if k = 0 then GetErr ''connection refused'' else GetResp 500 (ReadOk ''''))"

definition truncated_net :: network where
  "truncated_net url k =
     (if k = 0 then GetResp 503 (ReadOk '''') else GetResp 200 (ReadErr ''unexpected EOF''))"

section \<open>worker.Start\<close>

text \<open>
  What a worker shares with the rest of the program: whether \<open>ctx.Done()\<close> is closed,
  the buffer of the \<open>jobs\<close> channel (the head is received next) and whether \<open>jobs\<close> has
  been closed.
\<close>

record pool =
  cancelled :: bool
  jobs :: "string list"
  jobs_closed :: bool

text \<open>
  The worker itself: whether it still runs or how it returned, the URLs it has received,
  the values it has sent on \<open>results\<close>, what it has printed, and its view of the network.
  A send on \<open>results\<close> waits while that channel is full; \<open>sent\<close> lists the sends in the
  order they complete.
\<close>

datatype phase = Running | Stopped | Finished

record worker =
  phase :: phase
  received :: "string list"
  sent :: "string list"
  printed :: "string list"
  net_world :: world

definition new_worker :: "world \<Rightarrow> worker" where
  "new_worker w = \<lparr>phase = Running, received = [], sent = [], printed = [], net_world = w\<rparr>"

text \<open>
  The two cases of the \<open>select\<close>. A receive from \<open>ctx.Done()\<close> can proceed once the
  context is cancelled; a receive from \<open>jobs\<close> can proceed when a URL is buffered or the
  channel is closed. When both can proceed Go picks either one.
\<close>

datatype select_case = CtxDone | JobsRecv

definition ready :: "pool \<Rightarrow> select_case list" where
  "ready p =
     (if cancelled p then [CtxDone] else []) @
     (case jobs p of [] \<Rightarrow> if jobs_closed p then [JobsRecv] else []
                   | url # rest \<Rightarrow> [JobsRecv])"

definition stop_notice :: "int \<Rightarrow> string" where
  "stop_notice wid = ''[Worker '' @ show_int wid @ ''] Stopping'' @ [CHR 0x0A]"

definition result_line :: "int \<Rightarrow> string \<Rightarrow> string \<times> go_error \<Rightarrow> string" where
  "result_line wid url r =
     (case r of
        (body, Some e) \<Rightarrow> ''Worker '' @ show_int wid @ '': Error fetching '' @ url @ '': '' @ e
      | (body, None) \<Rightarrow> ''Worker '' @ show_int wid @ '': Fetched '' @ url @ '', length: ''
                          @ show_int (int (length body)))"

text \<open>One pass through the body of the \<open>for\<close> loop, given the case the \<open>select\<close> took.\<close>

fun iterate :: "network \<Rightarrow> int \<Rightarrow> select_case \<Rightarrow> pool \<times> worker \<Rightarrow> pool \<times> worker" where
  "iterate net wid CtxDone (p, k) =
     (p, k\<lparr>printed := printed k @ [stop_notice wid], phase := Stopped\<rparr>)"
| "iterate net wid JobsRecv (p, k) =
     (case jobs p of
        [] \<Rightarrow> (p, k\<lparr>phase := Finished\<rparr>)
      | url # rest \<Rightarrow>
          (case FetchWithRetry net url 3 (net_world k) of
             (r, w') \<Rightarrow>
               (p\<lparr>jobs := rest\<rparr>,
                k\<lparr>received := received k @ [url], net_world := w',
                  sent := sent k @ [result_line wid url r]\<rparr>)))"

text \<open>
  What the other goroutines of \<open>main\<close> do to the pool: the interrupt handler cancels the
  context, the feeder sends a URL (it waits while ten are buffered) and closes \<open>jobs\<close>
  once, another worker receives the head of the buffer.
\<close>

datatype env_action = Cancel | Enqueue string | CloseJobs | Steal

definition jobs_capacity :: nat where
  "jobs_capacity = 10"

fun env :: "env_action \<Rightarrow> pool \<Rightarrow> pool option" where
  "env Cancel p = Some (p\<lparr>cancelled := True\<rparr>)"
| "env (Enqueue url) p =
     (if jobs_closed p \<or> jobs_capacity \<le> length (jobs p) then None
      else Some (p\<lparr>jobs := jobs p @ [url]\<rparr>))"
| "env CloseJobs p = (if jobs_closed p then None else Some (p\<lparr>jobs_closed := True\<rparr>))"
| "env Steal p = (case jobs p of [] \<Rightarrow> None | url # rest \<Rightarrow> Some (p\<lparr>jobs := rest\<rparr>))"

text \<open>
  The worker under a schedule: each tick is a step of another goroutine or one pass of
  the worker's loop with the case its \<open>select\<close> takes. A schedule that asks for a case
  that cannot proceed, or for a pass after the worker has returned, is no execution
  (\<open>None\<close>).
\<close>

datatype tick = Env env_action | Select select_case

fun Start :: "network \<Rightarrow> int \<Rightarrow> tick list \<Rightarrow> pool \<times> worker \<Rightarrow> (pool \<times> worker) option" where
  "Start net wid [] s = Some s"
| "Start net wid (Env a # ts) (p, k) =
     (case env a p of None \<Rightarrow> None | Some p' \<Rightarrow> Start net wid ts (p', k))"
| "Start net wid (Select c # ts) (p, k) =
     (if phase k = Running \<and> c \<in> set (ready p) then Start net wid ts (iterate net wid c (p, k))
      else None)"

definition empty_pool :: pool where
  "empty_pool = \<lparr>cancelled = False, jobs = [], jobs_closed = False\<rparr>"

text \<open>What holds of a pool and a worker that was started fresh, after the schedule \<open>ts\<close>:
  the notice is there exactly when a pass took the cancellation case, and then the worker
  has returned through it; every pass that took the jobs case either sent one value or
  ended the worker, which it does only on a closed and empty buffer.\<close>

definition tidy :: "int \<Rightarrow> tick list \<Rightarrow> pool \<times> worker \<Rightarrow> bool" where
  "tidy wid ts s \<longleftrightarrow>
     (case s of (p, k) \<Rightarrow>
        printed k = (if Select CtxDone \<in> set ts then [stop_notice wid] else []) \<and>
        (phase k = Stopped) = (Select CtxDone \<in> set ts) \<and>
        length (sent k) = length (received k) \<and>
        count_list ts (Select JobsRecv) =
          length (sent k) + (if phase k = Finished then 1 else 0) \<and>
        (phase k = Finished \<longrightarrow> jobs_closed p \<and> jobs p = []))"

subsection \<open>Concrete states of a pool and a worker\<close>

text \<open>The pool after the interrupt, with nothing buffered; worker 4 after it has fetched
  \<open>http://a.test\<close> from \<open>flaky_net\<close>, still running, and the same worker after it has
  returned through the cancellation case.\<close>

definition cancelled_pool :: pool where
  "cancelled_pool = \<lparr>cancelled = True, jobs = [], jobs_closed = False\<rparr>"

definition served_worker :: worker where
  "served_worker =
     \<lparr>phase = Running, received = [''http://a.test''],
      sent = [''Worker 4: Fetched http://a.test, length: 5''],
      printed = [],
      net_world = \<lparr>calls = 2,
                   trace = [Get ''http://a.test'', Sleep 1000000000,
                            Get ''http://a.test'', ReadAll, CloseBody]\<rparr>\<rparr>"

definition stopped_worker :: worker where
  "stopped_worker =
     served_worker\<lparr>printed := [''[Worker 4] Stopping'' @ [CHR 0x0A]], phase := Stopped\<rparr>"

section \<open>The retry loop, step by step\<close>

lemma fetch_loop_retry:
  assumes "i < retries" "retryable (net url (calls w))"
  shows "fetch_loop net url retries i err w =
         fetch_loop net url retries (i + 1) (get_err (net url (calls w)))
           (w\<lparr>calls := Suc (calls w), trace := trace w @ failed_round url i\<rparr>)"
  using assms
  by (subst fetch_loop.simps)
     (auto simp: http_Get_def emit_def retryable_def get_err_def failed_round_def
           split: get_result.splits)

lemma fetch_loop_retries:
  assumes "\<forall>j<m. retryable (net url (calls w + j))" "i + int m \<le> retries"
  shows "fetch_loop net url retries i err w =
         fetch_loop net url retries (i + int m) (last_err net url err (calls w) m)
           (w\<lparr>calls := calls w + m, trace := trace w @ failed_rounds url i m\<rparr>)"
  using assms
proof (induction m arbitrary: i err w)
  case 0
  then show ?case by (simp add: last_err_def)
next
  case (Suc m)
  have r0: "retryable (net url (calls w))" using Suc.prems(1) by force
  have lt: "i < retries" using Suc.prems(2) by simp
  let ?w1 = "w\<lparr>calls := Suc (calls w), trace := trace w @ failed_round url i\<rparr>"
  have rest: "\<forall>j<m. retryable (net url (calls ?w1 + j))"
    using Suc.prems(1) by auto
  have bound: "(i + 1) + int m \<le> retries" using Suc.prems(2) by simp
  have le: "last_err net url (get_err (net url (calls w))) (Suc (calls w)) m
            = last_err net url err (calls w) (Suc m)"
    by (cases m) (simp_all add: last_err_def)
  have "fetch_loop net url retries i err w =
        fetch_loop net url retries (i + 1) (get_err (net url (calls w))) ?w1"
    using lt r0 by (rule fetch_loop_retry)
  also have "\<dots> = fetch_loop net url retries ((i + 1) + int m)
        (last_err net url (get_err (net url (calls w))) (calls ?w1) m)
        (?w1\<lparr>calls := calls ?w1 + m, trace := trace ?w1 @ failed_rounds url (i + 1) m\<rparr>)"
    using rest bound by (rule Suc.IH)
  finally show ?case
    using le by (simp add: add.assoc)
qed

lemma fetch_loop_done:
  "retries \<le> i \<Longrightarrow> fetch_loop net url retries i err w =
     (('''', Some (''failed after '' @ show_int retries @ '' retries: '' @ show_err err)), w)"
  by (subst fetch_loop.simps) simp

lemma fetch_loop_ok:
  assumes "i < retries" "net url (calls w) = GetResp StatusOK body"
  shows "fetch_loop net url retries i err w =
     ((case body of ReadOk b \<Rightarrow> (b, None)
                  | ReadErr e \<Rightarrow> ('''', Some (''error reading body: '' @ e))),
      w\<lparr>calls := Suc (calls w), trace := trace w @ [Get url, ReadAll, CloseBody]\<rparr>)"
  using assms
  by (subst fetch_loop.simps)
     (simp add: http_Get_def emit_def split: read_result.splits)

lemma all_attempts_fail:
  assumes "0 \<le> n" "\<forall>j<nat n. retryable (net url (calls w + j))"
  shows "FetchWithRetry net url n w =
     (('''', Some (''failed after '' @ show_int n @ '' retries: ''
                    @ show_err (last_err net url None (calls w) (nat n)))),
      w\<lparr>calls := calls w + nat n, trace := trace w @ failed_rounds url 0 (nat n)\<rparr>)"
proof -
  have "0 + int (nat n) \<le> n" using assms(1) by simp
  with assms(2) have "fetch_loop net url n 0 None w =
      fetch_loop net url n (0 + int (nat n)) (last_err net url None (calls w) (nat n))
        (w\<lparr>calls := calls w + nat n, trace := trace w @ failed_rounds url 0 (nat n)\<rparr>)"
    by (rule fetch_loop_retries)
  then show ?thesis
    using assms(1) by (simp add: FetchWithRetry_def fetch_loop_done)
qed

lemma first_status_ok:
  assumes "int (Suc m) \<le> n" "\<forall>j<m. retryable (net url (calls w + j))"
    and "net url (calls w + m) = GetResp StatusOK body"
  shows "FetchWithRetry net url n w =
     ((case body of ReadOk b \<Rightarrow> (b, None)
                  | ReadErr e \<Rightarrow> ('''', Some (''error reading body: '' @ e))),
      w\<lparr>calls := calls w + Suc m,
        trace := trace w @ failed_rounds url 0 m @ [Get url, ReadAll, CloseBody]\<rparr>)"
proof -
  let ?w1 = "w\<lparr>calls := calls w + m, trace := trace w @ failed_rounds url 0 m\<rparr>"
  have "0 + int m \<le> n" using assms(1) by simp
  with assms(2) have "fetch_loop net url n 0 None w =
      fetch_loop net url n (0 + int m) (last_err net url None (calls w) m) ?w1"
    by (rule fetch_loop_retries)
  moreover have "0 + int m < n" using assms(1) by simp
  moreover have "net url (calls ?w1) = GetResp StatusOK body" using assms(3) by simp
  ultimately show ?thesis
    by (simp add: FetchWithRetry_def fetch_loop_ok)
qed

lemma not_retryable_iff: "\<not> retryable r \<longleftrightarrow> (\<exists>body. r = GetResp StatusOK body)"
  by (cases r) (auto simp: retryable_def)

lemma first_not_retryable:
  fixes f :: "nat \<Rightarrow> get_result"
  assumes "\<not> (\<forall>j<N. retryable (f j))"
  obtains m where "m < N" "\<forall>j<m. retryable (f j)" "\<not> retryable (f m)"
proof -
  from assms obtain j where j: "j < N" "\<not> retryable (f j)" by blast
  define m where "m = (LEAST j. \<not> retryable (f j))"
  have nm: "\<not> retryable (f m)"
    unfolding m_def using j(2) by (rule LeastI [of "\<lambda>j. \<not> retryable (f j)"])
  have "m \<le> j"
    unfolding m_def using j(2) by (rule Least_le [of "\<lambda>j. \<not> retryable (f j)"])
  then have "m < N" using j(1) by simp
  moreover have "\<forall>j<m. retryable (f j)"
    unfolding m_def using not_less_Least by blast
  ultimately show thesis using nm that by blast
qed

lemma added_update [simp]:
  "added w (w\<lparr>calls := c, trace := trace w @ evs\<rparr>) = evs"
  by (simp add: added_def)

lemma added_same [simp]: "added w w = []"
  by (simp add: added_def)

lemma count_failed_rounds [simp]: "count_list (failed_rounds url i m) (Get url) = m"
  by (induction m arbitrary: i) (simp_all add: failed_round_def)

lemma show_int_of_nat: "show_int (int n) = show_nat n"
  by (simp add: show_int_def)

text \<open>Within the range of \<open>time.Duration\<close> the sleep of iteration \<open>i\<close> lasts \<open>i + 1\<close>
  seconds.\<close>

lemma backoff_seconds:
  assumes "0 \<le> i" "i < 9223372036"
  shows "backoff i = (i + 1) * Second"
proof -
  have a: "int64 (i + 1) = i + 1"
    using assms by (simp add: int64_def)
  have "0 \<le> (i + 1) * 1000000000" "(i + 1) * 1000000000 < 2 ^ 63"
    using assms by simp_all
  then have "int64 ((i + 1) * 1000000000) = (i + 1) * 1000000000"
    by (simp add: int64_def)
  with a show ?thesis by (simp add: backoff_def Second_def)
qed

section \<open>The claims about FetchWithRetry\<close>

text \<open>
  C1. For every url and every retries \<open>n \<ge> 1\<close>: if attempt \<open>m + 1 \<le> n\<close> is the first
  whose GET succeeds at the transport level with status exactly 200, and the body read
  succeeds with \<open>b\<close>, then FetchWithRetry returns \<open>b\<close> with a nil error right after that
  attempt: it has made \<open>m + 1\<close> GETs, and after the last GET the only effects are the
  read of the body and its close, so no further GET and no further sleep.
\<close>

theorem success_returns_at_once:
  assumes "1 \<le> n" "int (Suc m) \<le> n"
    and "\<forall>j<m. retryable (net url (calls w + j))"
    and "net url (calls w + m) = GetResp StatusOK (ReadOk b)"
  shows "FetchWithRetry net url n w =
     ((b, None),
      w\<lparr>calls := calls w + Suc m,
        trace := trace w @ failed_rounds url 0 m @ [Get url, ReadAll, CloseBody]\<rparr>)"
  using first_status_ok [where net = net and url = url and w = w, OF assms(2) assms(3) assms(4)]
  by simp

theorem success_returns_at_once_witness:
  "retryable (flaky_net ''http://a.test'' 0) \<and>
   FetchWithRetry flaky_net ''http://a.test'' 3 w0 =
     ((''hello'', None),
      \<lparr>calls = 2,
       trace = [Get ''http://a.test'', Sleep 1000000000,
                Get ''http://a.test'', ReadAll, CloseBody]\<rparr>)"
proof -
  have a: "(1::int) \<le> 3" by simp
  have b: "int (Suc 1) \<le> 3" by simp
  have c: "\<forall>j<1. retryable (flaky_net ''http://a.test'' (calls w0 + j))"
    by (simp add: retryable_def flaky_net_def w0_def)
  have d: "flaky_net ''http://a.test'' (calls w0 + 1) = GetResp StatusOK (ReadOk ''hello'')"
    by (simp add: flaky_net_def StatusOK_def w0_def)
  from success_returns_at_once
         [where net = flaky_net and url = "''http://a.test''" and w = w0, OF a b c d]
  show ?thesis
    by (simp add: w0_def failed_round_def backoff_def int64_def Second_def retryable_def
                  flaky_net_def)
qed

text \<open>
  C2. For every url and every retries \<open>n \<ge> 1\<close>, FetchWithRetry makes at most \<open>n\<close> GET
  attempts (counted by the call counter and by the \<open>Get\<close> events it adds to the trace),
  and when it returns the exhausted-retries error it has made exactly \<open>n\<close> attempts and
  each of them failed, by a transport error or a status other than 200.
\<close>

theorem retry_bound:
  assumes "1 \<le> n" "FetchWithRetry net url n w = ((body, err), w')"
  shows "count_list (added w w') (Get url) = calls w' - calls w \<and>
         calls w' \<le> calls w + nat n \<and>
         (\<forall>cause. err = Some (''failed after '' @ show_int n @ '' retries: '' @ cause) \<longrightarrow>
            calls w' = calls w + nat n \<and> (\<forall>j<nat n. retryable (net url (calls w + j))))"
proof (cases "\<forall>j<nat n. retryable (net url (calls w + j))")
  case True
  have "0 \<le> n" using assms(1) by simp
  from all_attempts_fail [where net = net and url = url and w = w, OF this True] assms(2) True
  show ?thesis by auto
next
  case False
  then obtain m where m: "m < nat n" "\<forall>j<m. retryable (net url (calls w + j))"
      "\<not> retryable (net url (calls w + m))"
    by (rule first_not_retryable)
  from m(3) obtain rd where rd: "net url (calls w + m) = GetResp StatusOK rd"
    by (auto simp: not_retryable_iff)
  have le: "int (Suc m) \<le> n" using m(1) by simp
  from first_status_ok [where net = net and url = url and w = w, OF le m(2) rd] assms(2) m(1)
  show ?thesis
    by (cases rd) auto
qed

theorem retry_bound_witness:
  "FetchWithRetry down_net ''http://bad.test'' 2 w0 =
     (('''', Some (''failed after 2 retries: <nil>'')),
      \<lparr>calls = 2, trace = [Get ''http://bad.test'', Sleep 1000000000,
                           Get ''http://bad.test'', Sleep 2000000000]\<rparr>) \<and>
   retryable (down_net ''http://bad.test'' 0) \<and> retryable (down_net ''http://bad.test'' 1)"
proof -
  let ?w = "\<lparr>calls = 2, trace = [Get ''http://bad.test'', Sleep 1000000000,
                                  Get ''http://bad.test'', Sleep 2000000000]\<rparr>"
  have a: "(1::int) \<le> 2" by simp
  have run: "FetchWithRetry down_net ''http://bad.test'' 2 w0 =
               (('''', Some (''failed after 2 retries: <nil>'')), ?w)"
    by (simp add: FetchWithRetry_def fetch_loop.simps http_Get_def emit_def down_net_def
                  StatusOK_def backoff_def int64_def Second_def show_int_def show_nat.simps
                  digit_def show_err_def w0_def)
  have msg: "''failed after 2 retries: <nil>'' = ''failed after '' @ show_int 2 @ '' retries: '' @ ''<nil>''"
    by (simp add: show_int_def show_nat.simps digit_def)
  from retry_bound [where net = down_net and url = "''http://bad.test''" and w = w0, OF a run]
  have every: "\<forall>j<nat 2. retryable (down_net ''http://bad.test'' (calls w0 + j))"
    using msg by (simp add: w0_def)
  have "retryable (down_net ''http://bad.test'' (calls w0 + 0))"
    using every [rule_format, of 0] by simp
  moreover have "retryable (down_net ''http://bad.test'' (calls w0 + 1))"
    using every [rule_format, of 1] by simp
  ultimately show ?thesis using run by (simp add: w0_def)
qed

text \<open>
  C3 fails on the code. The sleep sits at the end of the loop body, so it also runs
  after the final failed attempt, when no retry follows: with a budget of one attempt
  and a server that answers 500, the call makes its only GET, sleeps one second and
  only then returns the error.
\<close>

theorem sleep_after_final_attempt:
  "FetchWithRetry down_net ''http://bad.test'' 1 w0 =
     (('''', Some (''failed after 1 retries: <nil>'')),
      \<lparr>calls = 1, trace = [Get ''http://bad.test'', Sleep 1000000000]\<rparr>)"
  by (simp add: FetchWithRetry_def fetch_loop.simps http_Get_def emit_def down_net_def
                StatusOK_def backoff_def int64_def Second_def show_int_def show_nat.simps
                digit_def show_err_def w0_def)

text \<open>What the code does: \<open>n\<close> failed attempts are followed by \<open>n\<close> sleeps, one after
  each attempt.\<close>

lemma sleeps_of_failed_run:
  assumes "0 \<le> n" "\<forall>j<nat n. retryable (net url (calls w + j))"
  shows "added w (snd (FetchWithRetry net url n w)) = failed_rounds url 0 (nat n)"
  using all_attempts_fail [where net = net and url = url and w = w, OF assms] by simp

text \<open>
  C4. For every url and every retries \<open>n \<ge> 1\<close>: if every one of the \<open>n\<close> attempts gets a
  response whose status is not 200, FetchWithRetry fails terminally after exactly \<open>n\<close>
  GETs, and the world it leaves (the attempts made and the sleeps taken) is the one that
  \<open>n\<close> transport errors would leave: a non-200 response never cuts the loop short.
\<close>

theorem non_200_is_retried:
  assumes "1 \<le> n"
    and "\<forall>j<nat n. \<exists>status rd. net url (calls w + j) = GetResp status rd \<and> status \<noteq> StatusOK"
  shows "FetchWithRetry net url n w =
           (('''', Some (''failed after '' @ show_int n @ '' retries: <nil>'')),
            w\<lparr>calls := calls w + nat n, trace := trace w @ failed_rounds url 0 (nat n)\<rparr>)
       \<and> snd (FetchWithRetry net url n w) = snd (FetchWithRetry (\<lambda>u k. GetErr e) url n w)"
proof -
  have n0: "0 \<le> n" using assms(1) by simp
  have r: "\<forall>j<nat n. retryable (net url (calls w + j))"
    using assms(2) by (auto simp: retryable_def)
  have pos: "nat n - 1 < nat n" using assms(1) by simp
  from assms(2) pos obtain status rd where
    "net url (calls w + (nat n - 1)) = GetResp status rd" by blast
  then have "last_err net url None (calls w) (nat n) = None"
    using assms(1) by (simp add: last_err_def get_err_def)
  with all_attempts_fail [where net = net and url = url and w = w, OF n0 r] have first:
    "FetchWithRetry net url n w =
           (('''', Some (''failed after '' @ show_int n @ '' retries: <nil>'')),
            w\<lparr>calls := calls w + nat n, trace := trace w @ failed_rounds url 0 (nat n)\<rparr>)"
    by (simp add: show_err_def)
  have r': "\<forall>j<nat n. retryable ((\<lambda>u k. GetErr e) url (calls w + j))"
    by (simp add: retryable_def)
  from all_attempts_fail [where net = "\<lambda>u k. GetErr e" and url = url and w = w, OF n0 r'] first
  show ?thesis by simp
qed

theorem non_200_is_retried_witness:
  "FetchWithRetry down_net ''http://bad.test'' 3 w0 =
     (('''', Some (''failed after 3 retries: <nil>'')),
      \<lparr>calls = 3, trace = [Get ''http://bad.test'', Sleep 1000000000,
                           Get ''http://bad.test'', Sleep 2000000000,
                           Get ''http://bad.test'', Sleep 3000000000]\<rparr>) \<and>
   snd (FetchWithRetry down_net ''http://bad.test'' 3 w0) =
   snd (FetchWithRetry (\<lambda>u k. GetErr ''timeout'') ''http://bad.test'' 3 w0)"
proof -
  have a: "(1::int) \<le> 3" by simp
  have b: "\<forall>j<nat 3. \<exists>status rd.
             down_net ''http://bad.test'' (calls w0 + j) = GetResp status rd \<and> status \<noteq> StatusOK"
    by (simp add: down_net_def StatusOK_def)
  note both = non_200_is_retried
         [where net = down_net and url = "''http://bad.test''" and w = w0 and e = "''timeout''",
          OF a b]
  have first: "FetchWithRetry down_net ''http://bad.test'' 3 w0 =
     (('''', Some (''failed after 3 retries: <nil>'')),
      \<lparr>calls = 3, trace = [Get ''http://bad.test'', Sleep 1000000000,
                           Get ''http://bad.test'', Sleep 2000000000,
                           Get ''http://bad.test'', Sleep 3000000000]\<rparr>)"
    using both [THEN conjunct1]
    by (simp add: w0_def failed_round_def backoff_def int64_def Second_def show_int_def
                  show_nat.simps digit_def numeral_3_eq_3)
  have same: "snd (FetchWithRetry down_net ''http://bad.test'' 3 w0) =
              snd (FetchWithRetry (\<lambda>u k. GetErr ''timeout'') ''http://bad.test'' 3 w0)"
    using both by (rule conjunct2)
  from first same show ?thesis by blast
qed

text \<open>
  C5. For every url and every retries \<open>n \<ge> 1\<close>: if attempt \<open>m + 1 \<le> n\<close> is the first to
  get a 200 response and reading its body fails with \<open>e\<close>, FetchWithRetry returns the
  empty string and the error \<open>error reading body: e\<close> at once: the body is read once,
  and no GET of the remaining budget is made.
\<close>

theorem body_read_failure_is_terminal:
  assumes "1 \<le> n" "int (Suc m) \<le> n"
    and "\<forall>j<m. retryable (net url (calls w + j))"
    and "net url (calls w + m) = GetResp StatusOK (ReadErr e)"
  shows "FetchWithRetry net url n w =
     (('''', Some (''error reading body: '' @ e)),
      w\<lparr>calls := calls w + Suc m,
        trace := trace w @ failed_rounds url 0 m @ [Get url, ReadAll, CloseBody]\<rparr>)"
  using first_status_ok [where net = net and url = url and w = w, OF assms(2) assms(3) assms(4)]
  by simp

theorem body_read_failure_is_terminal_witness:
  "retryable (truncated_net ''http://a.test'' 0) \<and>
   FetchWithRetry truncated_net ''http://a.test'' 3 w0 =
     (('''', Some ''error reading body: unexpected EOF''),
      \<lparr>calls = 2,
       trace = [Get ''http://a.test'', Sleep 1000000000,
                Get ''http://a.test'', ReadAll, CloseBody]\<rparr>)"
proof -
  have a: "(1::int) \<le> 3" by simp
  have b: "int (Suc 1) \<le> 3" by simp
  have c: "\<forall>j<1. retryable (truncated_net ''http://a.test'' (calls w0 + j))"
    by (simp add: retryable_def truncated_net_def w0_def StatusOK_def)
  have d: "truncated_net ''http://a.test'' (calls w0 + 1) =
             GetResp StatusOK (ReadErr ''unexpected EOF'')"
    by (simp add: truncated_net_def StatusOK_def w0_def)
  from body_read_failure_is_terminal
         [where net = truncated_net and url = "''http://a.test''" and w = w0, OF a b c d]
  show ?thesis
    by (simp add: w0_def failed_round_def backoff_def int64_def Second_def retryable_def
                  truncated_net_def StatusOK_def)
qed

text \<open>
  C6 fails on the code. The error returned after \<open>n\<close> failed attempts is built from
  \<open>err\<close>, and every \<open>http.Get\<close> overwrites \<open>err\<close>; a GET that gets a response sets it to
  nil. When the first attempt is refused and the second gets a 500, the message is
  \<open>failed after 2 retries: <nil>\<close>: the refusal, the last error met, is gone, and
  nothing tells of the status 500 either.
\<close>

theorem exhausted_error_drops_cause:
  "FetchWithRetry refused_then_500 ''http://bad.test'' 2 w0 =
     (('''', Some (''failed after 2 retries: <nil>'')),
      \<lparr>calls = 2, trace = [Get ''http://bad.test'', Sleep 1000000000,
                           Get ''http://bad.test'', Sleep 2000000000]\<rparr>)"
  by (simp add: FetchWithRetry_def fetch_loop.simps http_Get_def emit_def refused_then_500_def
                StatusOK_def backoff_def int64_def Second_def show_int_def show_nat.simps
                digit_def show_err_def w0_def)

text \<open>What the code does: the message carries the transport error of the final GET
  alone, and \<open><nil>\<close> when the final GET got a response.\<close>

lemma exhausted_error_text:
  assumes "1 \<le> n" "\<forall>j<nat n. retryable (net url (calls w + j))"
  shows "snd (fst (FetchWithRetry net url n w)) =
           Some (''failed after '' @ show_int n @ '' retries: ''
                 @ show_err (get_err (net url (calls w + nat n - 1))))"
proof -
  have "0 \<le> n" using assms(1) by simp
  from all_attempts_fail [where net = net and url = url and w = w, OF this assms(2)] assms(1)
  show ?thesis by (simp add: last_err_def)
qed

text \<open>
  C10. For every url: called with \<open>retries \<le> 0\<close>, FetchWithRetry makes no GET and takes
  no sleep (the world is left as it was) and returns the empty string with the error
  \<open>failed after <retries> retries: <nil>\<close>; it never returns success.
\<close>

theorem no_attempt_without_budget:
  assumes "retries \<le> 0"
  shows "FetchWithRetry net url retries w =
     (('''', Some (''failed after '' @ show_int retries @ '' retries: <nil>'')), w)"
  using assms by (simp add: FetchWithRetry_def fetch_loop_done show_err_def)

theorem no_attempt_without_budget_witness:
  "FetchWithRetry flaky_net ''http://a.test'' (- 2) w0 =
     (('''', Some (''failed after -2 retries: <nil>'')), w0) \<and>
   FetchWithRetry flaky_net ''http://a.test'' 0 w0 =
     (('''', Some (''failed after 0 retries: <nil>'')), w0)"
proof -
  have a: "(- 2 :: int) \<le> 0" by simp
  have b: "(0 :: int) \<le> 0" by simp
  from no_attempt_without_budget [of "- 2" flaky_net "''http://a.test''" w0, OF a]
       no_attempt_without_budget [of 0 flaky_net "''http://a.test''" w0, OF b]
  show ?thesis
    by (simp add: show_int_def show_nat.simps digit_def)
qed

section \<open>The worker under a schedule\<close>

lemma Start_terminated:
  assumes "Start net wid ts (p, k) = Some (p', k')" "phase k \<noteq> Running"
  shows "k' = k"
  using assms
proof (induction ts arbitrary: p)
  case Nil
  then show ?case by simp
next
  case (Cons t ts)
  then show ?case by (cases t) (auto split: option.splits if_splits)
qed

lemma Start_cancelled:
  assumes "Start net wid ts (p, k) = Some (p', k')" "cancelled p"
  shows "cancelled p'"
  using assms
proof (induction ts arbitrary: p k)
  case Nil
  then show ?case by simp
next
  case (Cons t ts)
  show ?case
  proof (cases t)
    case (Env a)
    with Cons.prems obtain p1 where e: "env a p = Some p1"
      and r: "Start net wid ts (p1, k) = Some (p', k')"
      by (auto split: option.splits)
    from e Cons.prems(2) have "cancelled p1"
      by (cases a) (auto split: if_splits list.splits)
    with Cons.IH r show ?thesis by blast
  next
    case (Select c)
    with Cons.prems have rest: "Start net wid ts (iterate net wid c (p, k)) = Some (p', k')"
      by (auto split: if_splits)
    obtain p1 k1 where it: "iterate net wid c (p, k) = (p1, k1)" by force
    then have "cancelled p1" using Cons.prems(2)
      by (cases c) (auto split: list.splits prod.splits)
    with Cons.IH rest it show ?thesis by simp
  qed
qed

lemma Start_append:
  "Start net wid (ts @ ts') s =
     (case Start net wid ts s of None \<Rightarrow> None | Some s' \<Rightarrow> Start net wid ts' s')"
proof (induction ts arbitrary: s)
  case Nil
  then show ?case by simp
next
  case (Cons t ts)
  obtain p k where s: "s = (p, k)" by (cases s)
  show ?case
    unfolding s using Cons.IH
    by (cases t) (simp_all split: option.splits)
qed

lemma tidy_env:
  assumes "tidy wid ts (p, k)" "env a p = Some p'"
  shows "tidy wid (ts @ [Env a]) (p', k)"
  using assms
  by (cases a) (auto simp: tidy_def split: if_splits list.splits)

lemma tidy_select:
  assumes "tidy wid ts (p, k)" "phase k = Running" "c \<in> set (ready p)"
    and "iterate net wid c (p, k) = (p', k')"
  shows "tidy wid (ts @ [Select c]) (p', k')"
proof (cases c)
  case CtxDone
  with assms show ?thesis
    by (auto simp: tidy_def)
next
  case JobsRecv
  show ?thesis
  proof (cases "jobs p")
    case Nil
    with assms JobsRecv show ?thesis
      by (auto simp: tidy_def ready_def split: if_splits)
  next
    case (Cons url rest)
    with assms JobsRecv show ?thesis
      by (auto simp: tidy_def split: prod.splits)
  qed
qed

lemma tidy_step:
  assumes "tidy wid ts (p, k)" "Start net wid [t] (p, k) = Some (p', k')"
  shows "tidy wid (ts @ [t]) (p', k')"
proof (cases t)
  case (Env a)
  with assms(2) have "env a p = Some p'" "k' = k"
    by (auto split: option.splits)
  with assms(1) Env show ?thesis
    by (simp add: tidy_env)
next
  case (Select c)
  with assms(2) have run: "phase k = Running" "c \<in> set (ready p)"
    and it: "iterate net wid c (p, k) = (p', k')"
    by (auto split: if_splits)
  from assms(1) run it have "tidy wid (ts @ [Select c]) (p', k')"
    by (rule tidy_select)
  with Select show ?thesis by simp
qed

lemma Start_tidy:
  assumes "Start net wid ts (p, new_worker w) = Some s"
  shows "tidy wid ts s"
  using assms
proof (induction ts arbitrary: s rule: rev_induct)
  case Nil
  then show ?case by (auto simp: tidy_def new_worker_def)
next
  case (snoc t ts)
  from snoc.prems obtain s1 where s1: "Start net wid ts (p, new_worker w) = Some s1"
    and last: "Start net wid [t] s1 = Some s"
    by (auto simp: Start_append split: option.splits)
  obtain p1 k1 where e1: "s1 = (p1, k1)" by (cases s1)
  obtain p2 k2 where e2: "s = (p2, k2)" by (cases s)
  have "tidy wid ts (p1, k1)" using snoc.IH s1 e1 by simp
  moreover have "Start net wid [t] (p1, k1) = Some (p2, k2)" using last e1 e2 by simp
  ultimately have "tidy wid (ts @ [t]) (p2, k2)" by (rule tidy_step)
  then show ?case using e2 by simp
qed

section \<open>The claims about the worker\<close>

text \<open>
  C7. For every Job a worker takes from the dispatch queue (the head \<open>url\<close> of the
  buffer), the worker calls FetchWithRetry with a budget of 3 and sends exactly one
  value on the results channel: \<open>Worker <id>: Fetched <url>, length: <n>\<close> with \<open>n\<close> the
  byte length of the body when the error is nil, and
  \<open>Worker <id>: Error fetching <url>: <error>\<close> otherwise. It keeps running and prints
  nothing.
\<close>

theorem one_result_per_job:
  assumes "jobs p = url # rest"
    and "FetchWithRetry net url 3 (net_world k) = ((body, err), w')"
  shows "iterate net wid JobsRecv (p, k) =
     (p\<lparr>jobs := rest\<rparr>,
      k\<lparr>received := received k @ [url],
        net_world := w',
        sent := sent k @
          [case err of
             None \<Rightarrow> ''Worker '' @ show_int wid @ '': Fetched '' @ url @ '', length: ''
                      @ show_nat (length body)
           | Some e \<Rightarrow> ''Worker '' @ show_int wid @ '': Error fetching '' @ url @ '': '' @ e]\<rparr>)"
  using assms
  by (simp add: result_line_def show_int_of_nat split: option.splits)

theorem one_result_per_job_witness:
  "iterate flaky_net 4 JobsRecv
     (\<lparr>cancelled = False, jobs = [''http://a.test'', ''http://b.test''], jobs_closed = False\<rparr>,
      new_worker w0) =
   (\<lparr>cancelled = False, jobs = [''http://b.test''], jobs_closed = False\<rparr>,
    \<lparr>phase = Running, received = [''http://a.test''],
     sent = [''Worker 4: Fetched http://a.test, length: 5''], printed = [],
     net_world = \<lparr>calls = 2,
                  trace = [Get ''http://a.test'', Sleep 1000000000,
                           Get ''http://a.test'', ReadAll, CloseBody]\<rparr>\<rparr>)"
proof -
  let ?p = "\<lparr>cancelled = False, jobs = [''http://a.test'', ''http://b.test''],
             jobs_closed = False\<rparr>"
  let ?w = "\<lparr>calls = 2, trace = [Get ''http://a.test'', Sleep 1000000000,
                                  Get ''http://a.test'', ReadAll, CloseBody]\<rparr>"
  have a: "jobs ?p = ''http://a.test'' # [''http://b.test'']" by simp
  have b: "FetchWithRetry flaky_net ''http://a.test'' 3 (net_world (new_worker w0)) =
             ((''hello'', None), ?w)"
    by (simp add: FetchWithRetry_def fetch_loop.simps http_Get_def emit_def flaky_net_def
                  StatusOK_def backoff_def int64_def Second_def new_worker_def w0_def)
  from one_result_per_job [where wid = 4, OF a b]
  show ?thesis
    by (simp add: new_worker_def show_int_def show_nat.simps digit_def)
qed

text \<open>
  C8. For every worker started fresh, under every schedule \<open>ts\<close>: the stop notice
  \<open>[Worker <id>] Stopping\<close> has been printed exactly once when some pass of the loop
  took the cancellation case, and not at all otherwise; the worker has returned through
  the cancellation path exactly in that case. While it runs and the context is
  cancelled, a pass that takes the cancellation case prints the notice and ends the
  worker, leaving everything else as it was. While it runs and the jobs channel is
  closed and empty, a pass that takes the jobs case ends the worker at once, with no
  notice, nothing sent and nothing else changed. Every pass that took the jobs case
  either sent one value or was the one that ended the worker, so termination is never
  reported on the results channel, and once the worker has returned nothing more is
  sent or printed.
\<close>

theorem stop_notice_only_on_cancellation:
  assumes "Start net wid ts (p, new_worker w) = Some (p1, k1)"
    and "Start net wid ts' (p1, k1) = Some (p2, k2)"
  shows "printed k1 =
           (if Select CtxDone \<in> set ts
            then [''[Worker '' @ show_int wid @ ''] Stopping'' @ [CHR 0x0A]] else []) \<and>
         (phase k1 = Stopped) = (Select CtxDone \<in> set ts) \<and>
         (phase k1 = Finished \<longrightarrow> jobs_closed p1 \<and> jobs p1 = []) \<and>
         length (sent k1) = length (received k1) \<and>
         count_list ts (Select JobsRecv) =
           length (sent k1) + (if phase k1 = Finished then 1 else 0) \<and>
         (phase k1 \<noteq> Running \<longrightarrow> k2 = k1) \<and>
         (phase k1 = Running \<and> cancelled p1 \<longrightarrow>
            Start net wid (ts @ [Select CtxDone]) (p, new_worker w) =
              Some (p1, k1\<lparr>printed := printed k1 @
                                [''[Worker '' @ show_int wid @ ''] Stopping'' @ [CHR 0x0A]],
                            phase := Stopped\<rparr>)) \<and>
         (phase k1 = Running \<and> jobs p1 = [] \<and> jobs_closed p1 \<longrightarrow>
            Start net wid (ts @ [Select JobsRecv]) (p, new_worker w) =
              Some (p1, k1\<lparr>phase := Finished\<rparr>)) \<and>
         (\<forall>c \<in> set (ready p1).
            phase k1 = Running \<and> phase (snd (iterate net wid c (p1, k1))) \<noteq> Running \<longrightarrow>
            sent (snd (iterate net wid c (p1, k1))) = sent k1)"
proof -
  have "tidy wid ts (p1, k1)"
    using assms(1) by (rule Start_tidy)
  then have a: "printed k1 =
           (if Select CtxDone \<in> set ts
            then [''[Worker '' @ show_int wid @ ''] Stopping'' @ [CHR 0x0A]] else [])"
    and b: "(phase k1 = Stopped) = (Select CtxDone \<in> set ts)"
    and c: "phase k1 = Finished \<longrightarrow> jobs_closed p1 \<and> jobs p1 = []"
    and d: "length (sent k1) = length (received k1)"
    and e: "count_list ts (Select JobsRecv) =
              length (sent k1) + (if phase k1 = Finished then 1 else 0)"
    by (simp_all add: tidy_def stop_notice_def)
  have f: "phase k1 \<noteq> Running \<longrightarrow> k2 = k1"
    using assms(2) Start_terminated by blast
  have g: "phase k1 = Running \<and> cancelled p1 \<longrightarrow>
            Start net wid (ts @ [Select CtxDone]) (p, new_worker w) =
              Some (p1, k1\<lparr>printed := printed k1 @
                                [''[Worker '' @ show_int wid @ ''] Stopping'' @ [CHR 0x0A]],
                            phase := Stopped\<rparr>)"
    using assms(1) by (simp add: Start_append ready_def stop_notice_def)
  have h: "phase k1 = Running \<and> jobs p1 = [] \<and> jobs_closed p1 \<longrightarrow>
            Start net wid (ts @ [Select JobsRecv]) (p, new_worker w) =
              Some (p1, k1\<lparr>phase := Finished\<rparr>)"
    using assms(1) by (simp add: Start_append ready_def)
  have i: "phase k1 = Running \<and> phase (snd (iterate net wid c (p1, k1))) \<noteq> Running \<longrightarrow>
           sent (snd (iterate net wid c (p1, k1))) = sent k1" for c
    by (cases c) (auto split: list.splits prod.splits)
  from a b c d e f g h i show ?thesis by blast
qed

theorem stop_notice_only_on_cancellation_witness:
  "Start flaky_net 4 [Env (Enqueue ''http://a.test''), Select JobsRecv, Env Cancel]
     (empty_pool, new_worker w0) = Some (cancelled_pool, served_worker) \<and>
   Start flaky_net 4
     [Env (Enqueue ''http://a.test''), Select JobsRecv, Env Cancel, Select CtxDone]
     (empty_pool, new_worker w0) = Some (cancelled_pool, stopped_worker) \<and>
   Start flaky_net 4 [Env CloseJobs] (cancelled_pool, stopped_worker) =
     Some (cancelled_pool\<lparr>jobs_closed := True\<rparr>, stopped_worker) \<and>
   printed served_worker = [] \<and>
   printed stopped_worker = [''[Worker 4] Stopping'' @ [CHR 0x0A]] \<and>
   phase stopped_worker = Stopped \<and>
   Start flaky_net 4 [Env CloseJobs, Select JobsRecv] (empty_pool, new_worker w0) =
     Some (empty_pool\<lparr>jobs_closed := True\<rparr>, (new_worker w0)\<lparr>phase := Finished\<rparr>) \<and>
   printed ((new_worker w0)\<lparr>phase := Finished\<rparr>) = [] \<and>
   sent ((new_worker w0)\<lparr>phase := Finished\<rparr>) = []"
proof -
  let ?ts = "[Env (Enqueue ''http://a.test''), Select JobsRecv, Env Cancel]"
  let ?closed = "empty_pool\<lparr>jobs_closed := True\<rparr>"
  let ?done = "(new_worker w0)\<lparr>phase := Finished\<rparr>"
  have a: "Start flaky_net 4 ?ts (empty_pool, new_worker w0) = Some (cancelled_pool, served_worker)"
    by (simp add: empty_pool_def new_worker_def w0_def ready_def jobs_capacity_def
                  FetchWithRetry_def fetch_loop.simps http_Get_def emit_def flaky_net_def
                  StatusOK_def backoff_def int64_def Second_def result_line_def show_int_def
                  show_nat.simps digit_def cancelled_pool_def served_worker_def)
  have idle: "Start flaky_net 4 [] (cancelled_pool, served_worker) =
                Some (cancelled_pool, served_worker)"
    by simp
  note running = stop_notice_only_on_cancellation [OF a idle]
  have r: "phase served_worker = Running" "cancelled cancelled_pool"
    by (simp_all add: served_worker_def cancelled_pool_def)
  have b: "Start flaky_net 4 (?ts @ [Select CtxDone]) (empty_pool, new_worker w0) =
             Some (cancelled_pool, stopped_worker)"
    using running r
    by (simp add: served_worker_def stopped_worker_def show_int_def show_nat.simps digit_def)
  have c: "Start flaky_net 4 [Env CloseJobs] (cancelled_pool, stopped_worker) =
             Some (cancelled_pool\<lparr>jobs_closed := True\<rparr>, stopped_worker)"
    by (simp add: cancelled_pool_def)
  note stopped = stop_notice_only_on_cancellation [OF b c]
  have d: "printed served_worker = []"
    using running by simp
  have e: "printed stopped_worker = [''[Worker 4] Stopping'' @ [CHR 0x0A]]"
    using stopped by (simp add: show_int_def show_nat.simps digit_def)
  have f: "phase stopped_worker = Stopped"
    using stopped by simp
  have g: "Start flaky_net 4 [Env CloseJobs] (empty_pool, new_worker w0) =
             Some (?closed, new_worker w0)"
    by (simp add: empty_pool_def)
  have idle': "Start flaky_net 4 [] (?closed, new_worker w0) = Some (?closed, new_worker w0)"
    by simp
  note waiting = stop_notice_only_on_cancellation [OF g idle']
  have w: "phase (new_worker w0) = Running" "jobs ?closed = []" "jobs_closed ?closed"
    by (simp_all add: new_worker_def empty_pool_def)
  have h: "Start flaky_net 4 ([Env CloseJobs] @ [Select JobsRecv]) (empty_pool, new_worker w0) =
             Some (?closed, ?done)"
    using waiting w by blast
  have idle'': "Start flaky_net 4 [] (?closed, ?done) = Some (?closed, ?done)"
    by simp
  note finished = stop_notice_only_on_cancellation [OF h idle'']
  have j: "printed ?done = []"
    using finished by simp
  have "length (sent ?done) = length (received ?done)"
    using finished by blast
  then have k: "sent ?done = []"
    by (simp add: new_worker_def)
  from a b c d e f h j k show ?thesis by simp
qed

text \<open>
  C9 fails on the code. The \<open>select\<close> has no order among its cases: with the context
  cancelled and a URL buffered, both receives can proceed and the worker may take the
  URL. In the schedule below the signal is raised before the worker's pass, and the
  worker still receives the job, fetches it and keeps running.
\<close>

theorem job_taken_after_cancellation:
  "Start flaky_net 4 [Env (Enqueue ''http://a.test''), Env Cancel, Select JobsRecv]
     (empty_pool, new_worker w0) =
   Some (\<lparr>cancelled = True, jobs = [], jobs_closed = False\<rparr>,
         \<lparr>phase = Running, received = [''http://a.test''],
          sent = [''Worker 4: Fetched http://a.test, length: 5''],
          printed = [],
          net_world = \<lparr>calls = 2,
                       trace = [Get ''http://a.test'', Sleep 1000000000,
                                Get ''http://a.test'', ReadAll, CloseBody]\<rparr>\<rparr>)"
  by (simp add: empty_pool_def new_worker_def w0_def ready_def jobs_capacity_def
                FetchWithRetry_def fetch_loop.simps http_Get_def emit_def flaky_net_def
                StatusOK_def backoff_def int64_def Second_def result_line_def show_int_def
                show_nat.simps digit_def)

text \<open>
  C9 as the code has it. In every execution in which the signal has been raised it stays
  raised, and at each later pass of a running worker the cancellation case can proceed
  and, when taken, ends the worker without a job being received. When no URL is
  buffered, every case that can proceed ends the worker, so its next pass terminates
  it. When a URL is buffered, both cases can proceed and the pass may take either.
\<close>

theorem cancellation_races_with_jobs:
  assumes "Start net wid ts (p, k) = Some (p', k')"
    and "cancelled p" "phase k' = Running"
  shows "cancelled p' \<and>
         Start net wid (ts @ [Select CtxDone]) (p, k) =
           Some (p', k'\<lparr>printed := printed k' @ [stop_notice wid], phase := Stopped\<rparr>) \<and>
         (jobs p' = [] \<longrightarrow>
            (\<forall>c \<in> set (ready p'). phase (snd (iterate net wid c (p', k'))) \<noteq> Running)) \<and>
         (jobs p' \<noteq> [] \<longrightarrow> ready p' = [CtxDone, JobsRecv])"
proof -
  have c: "cancelled p'"
    using assms(1) assms(2) by (rule Start_cancelled)
  have stop: "Start net wid (ts @ [Select CtxDone]) (p, k) =
           Some (p', k'\<lparr>printed := printed k' @ [stop_notice wid], phase := Stopped\<rparr>)"
    using assms(1) assms(3) c by (simp add: Start_append ready_def)
  have none: "jobs p' = [] \<longrightarrow>
            (\<forall>c \<in> set (ready p'). phase (snd (iterate net wid c (p', k'))) \<noteq> Running)"
    by (auto simp: ready_def split: if_splits)
  have both: "jobs p' \<noteq> [] \<longrightarrow> ready p' = [CtxDone, JobsRecv]"
    using c by (auto simp: ready_def split: list.splits)
  from c stop none both show ?thesis by blast
qed

theorem cancellation_races_with_jobs_witness:
  "Start flaky_net 4 [Env (Enqueue ''http://a.test'')] (cancelled_pool, new_worker w0) =
     Some (cancelled_pool\<lparr>jobs := [''http://a.test'']\<rparr>, new_worker w0) \<and>
   ready (cancelled_pool\<lparr>jobs := [''http://a.test'']\<rparr>) = [CtxDone, JobsRecv] \<and>
   Start flaky_net 4 [Env (Enqueue ''http://a.test''), Select CtxDone]
     (cancelled_pool, new_worker w0) =
     Some (cancelled_pool\<lparr>jobs := [''http://a.test'']\<rparr>,
           (new_worker w0)\<lparr>printed := [stop_notice 4], phase := Stopped\<rparr>) \<and>
   Start flaky_net 4 [Env (Enqueue ''http://a.test''), Env Steal] (cancelled_pool, new_worker w0) =
     Some (cancelled_pool, new_worker w0) \<and>
   phase (snd (iterate flaky_net 4 CtxDone (cancelled_pool, new_worker w0))) = Stopped"
proof -
  let ?p' = "cancelled_pool\<lparr>jobs := [''http://a.test'']\<rparr>"
  have a: "Start flaky_net 4 [Env (Enqueue ''http://a.test'')] (cancelled_pool, new_worker w0) =
             Some (?p', new_worker w0)"
    by (simp add: jobs_capacity_def cancelled_pool_def)
  have a': "Start flaky_net 4 [Env (Enqueue ''http://a.test''), Env Steal]
              (cancelled_pool, new_worker w0) = Some (cancelled_pool, new_worker w0)"
    by (simp add: jobs_capacity_def cancelled_pool_def)
  have b: "cancelled cancelled_pool" by (simp add: cancelled_pool_def)
  have c: "phase (new_worker w0) = Running" by (simp add: new_worker_def)
  note queued = cancellation_races_with_jobs [OF a b c]
  note empty = cancellation_races_with_jobs [OF a' b c]
  have "jobs ?p' \<noteq> []" by simp
  with queued have both: "ready ?p' = [CtxDone, JobsRecv]" by blast
  have stop: "Start flaky_net 4 [Env (Enqueue ''http://a.test''), Select CtxDone]
                (cancelled_pool, new_worker w0) =
              Some (?p', (new_worker w0)\<lparr>printed := [stop_notice 4], phase := Stopped\<rparr>)"
    using queued by (simp add: new_worker_def)
  have "jobs cancelled_pool = []" by (simp add: cancelled_pool_def)
  moreover have "CtxDone \<in> set (ready cancelled_pool)"
    by (simp add: ready_def cancelled_pool_def)
  ultimately have
    "phase (snd (iterate flaky_net 4 CtxDone (cancelled_pool, new_worker w0))) \<noteq> Running"
    using empty by blast
  then have d: "phase (snd (iterate flaky_net 4 CtxDone (cancelled_pool, new_worker w0))) = Stopped"
    by simp
  from a both stop a' d show ?thesis by blast
qed

end
